theory Spec2Isabelle
  imports Main "HOL-Library.Sublist"
begin

section \<open>The book browser: a shallow embedding of the script of the single-file component\<close>

text \<open>
  The component keeps its state in module-level reactive references and talks to three
  browser services: \<^verbatim>\<open>localStorage\<close>, the session history and the network. The
  embedding below follows the most complete variant of the component (the one with the
  image cache, the category filter and the favourites).  Every function of the script
  that a property below speaks about is a HOL function from the state before the call to
  the state after it.

  JavaScript strings are modelled as \<^typ>\<open>string\<close>, a list of bytes holding the UTF-8
  form of the text.  The string builtins the script calls are written out for the ASCII
  range; bytes beyond it are left alone by \<open>toLowerCase\<close> and are not white space for
  \<open>trim\<close>.  The proofs below use of the two functions only that the trimmed empty
  string is empty.
\<close>

subsection \<open>String builtins used by the script\<close>

definition lower_char :: "char \<Rightarrow> char" where
  "lower_char c =
     (let n = (of_char c :: nat) in if 65 \<le> n \<and> n \<le> 90 then char_of (n + 32) else c)"

definition toLowerCase :: "string \<Rightarrow> string" where
  "toLowerCase s = map lower_char s"

definition isWhiteSpace :: "char \<Rightarrow> bool" where
  "isWhiteSpace c = ((of_char c :: nat) \<in> {9, 10, 11, 12, 13, 32})"

definition trim :: "string \<Rightarrow> string" where
  "trim s = rev (dropWhile isWhiteSpace (rev (dropWhile isWhiteSpace s)))"

text \<open>\<^verbatim>\<open>s.includes(q)\<close>: \<open>q\<close> occurs in \<open>s\<close> as a contiguous run.\<close>

definition includes_str :: "string \<Rightarrow> string \<Rightarrow> bool" where
  "includes_str s q = sublist q s"

definition hex_upper :: "nat \<Rightarrow> char" where
  "hex_upper n = ''0123456789ABCDEF'' ! (n mod 16)"

definition hex_lower :: "nat \<Rightarrow> char" where
  "hex_lower n = ''0123456789abcdef'' ! (n mod 16)"

definition uri_unreserved :: "char \<Rightarrow> bool" where
  "uri_unreserved c =
     (let n = (of_char c :: nat) in
        (65 \<le> n \<and> n \<le> 90) \<or> (97 \<le> n \<and> n \<le> 122) \<or> (48 \<le> n \<and> n \<le> 57) \<or>
        c \<in> set ''-_.!~*'()'')"

definition encode_char :: "char \<Rightarrow> string" where
  "encode_char c =
     (if uri_unreserved c then [c]
      else [CHR ''%'', hex_upper (of_char c div 16), hex_upper (of_char c)])"

definition encodeURIComponent :: "string \<Rightarrow> string" where
  "encodeURIComponent s = concat (map encode_char s)"

text \<open>\<^verbatim>\<open>JSON.stringify\<close> on an array of strings, the only value the script serialises.\<close>

definition json_char :: "char \<Rightarrow> string" where
  "json_char c =
     (let n = (of_char c :: nat) in
        if n = 34 then [CHR 0x5C, CHR 0x22]
        else if n = 92 then [CHR 0x5C, CHR 0x5C]
        else if n = 8 then [CHR 0x5C, CHR ''b'']
        else if n = 9 then [CHR 0x5C, CHR ''t'']
        else if n = 10 then [CHR 0x5C, CHR ''n'']
        else if n = 12 then [CHR 0x5C, CHR ''f'']
        else if n = 13 then [CHR 0x5C, CHR ''r'']
        else if n < 32 then
          [CHR 0x5C, CHR ''u'', CHR ''0'', CHR ''0'', hex_lower (n div 16), hex_lower n]
        else [c])"

definition json_string :: "string \<Rightarrow> string" where
  "json_string s = [CHR 0x22] @ concat (map json_char s) @ [CHR 0x22]"

fun json_join :: "string list \<Rightarrow> string" where
  "json_join [] = []"
| "json_join [s] = s"
| "json_join (s # t # ts) = s @ '','' @ json_join (t # ts)"

definition JSON_stringify :: "string list \<Rightarrow> string" where
  "JSON_stringify ks = ''['' @ json_join (map json_string ks) @ '']''"

subsection \<open>Data\<close>

text \<open>
  A book of \<^verbatim>\<open>summary.json\<close>.  Only the fields the script's logic reads are kept;
  \<open>category\<close> and \<open>size_in_bytes\<close> may be missing from an entry (\<open>None\<close>).  The
  remaining fields (language, pages, description, ...) are only displayed.
\<close>

record book =
  name :: string
  author :: string
  category :: "string option"
  isCoverImg :: bool
  size_in_bytes :: "int option"

text \<open>
  The state object of a history entry: \<^verbatim>\<open>{ bookDetail: true, bookName }\<close> or
  \<^verbatim>\<open>{ epubReader: true, bookName }\<close>; an entry without state object carries \<open>None\<close>.
  \<open>entry_hash\<close> is what \<^verbatim>\<open>window.location.hash\<close> reads while the entry is current
  (the empty string when the URL has no fragment).
\<close>

datatype history_state = BookDetail string | EpubReader string

record history_entry =
  entry_state :: "history_state option"
  entry_hash :: string

text \<open>
  What one \<^verbatim>\<open>fetch\<close> of an image comes to: the promise rejects (also when reading the
  body fails), the response is not ok, or the response is ok and
  \<^verbatim>\<open>URL.createObjectURL\<close> hands out the given blob URL for its body.
\<close>

datatype fetch_result = FetchRejected | FetchNotOk | FetchOk string

text \<open>
  What \<^verbatim>\<open>axios.get\<close> of the summary comes to: the request fails, or it delivers a body,
  whose \<open>book\<close> member is an array of books (\<open>Some\<close>) or is not there (\<open>None\<close>).
\<close>

datatype axios_result = AxiosError | AxiosData "book list option"

text \<open>
  The references of the script (first block) and the browser state it works on (second
  block).  The session history is the current entry between the entries behind it
  (\<open>past\<close>, nearest first) and those ahead of it (\<open>future\<close>, nearest first).
  \<open>storageWritable\<close> says whether \<^verbatim>\<open>localStorage.setItem\<close> succeeds; it throws
  otherwise (quota exceeded, storage disabled).  \<open>requests\<close> logs the URL of every network
  request the script issues.
\<close>

record app =
  books :: "book list"
  loading :: bool
  error :: "string option"
  selectedAuthor :: string
  selectedCategory :: string
  showFavoritesOnly :: bool
  searchQuery :: string
  selectedBook :: "book option"
  showBookDetail :: bool
  favorites :: "string list"
  showEpubReader :: bool
  currentBook :: "book option"
  cachedImageUrls :: "string \<rightharpoonup> string"
  localStorage :: "string \<rightharpoonup> string"
  storageWritable :: bool
  past :: "history_entry list"
  current :: history_entry
  future :: "history_entry list"
  requests :: "string list"

text \<open>The state the script starts in on a fresh page with empty storage.\<close>

definition initial :: app where
  "initial = \<lparr> books = [], loading = True, error = None, selectedAuthor = [],
     selectedCategory = [], showFavoritesOnly = False, searchQuery = [],
     selectedBook = None, showBookDetail = False, favorites = [],
     showEpubReader = False, currentBook = None, cachedImageUrls = Map.empty,
     localStorage = Map.empty, storageWritable = True, past = [],
     current = \<lparr> entry_state = None, entry_hash = [] \<rparr>, future = [],
     requests = [] \<rparr>"

subsection \<open>Browser services\<close>

text \<open>\<^verbatim>\<open>localStorage.setItem\<close>: \<open>None\<close> when it throws.\<close>

definition setItem :: "string \<Rightarrow> string \<Rightarrow> app \<Rightarrow> app option" where
  "setItem k v st =
     (if storageWritable st then Some (st\<lparr>localStorage := (localStorage st)(k \<mapsto> v)\<rparr>)
      else None)"

definition getItem :: "string \<Rightarrow> app \<Rightarrow> string option" where
  "getItem k st = localStorage st k"

text \<open>\<^verbatim>\<open>history.pushState\<close> drops the entries ahead and makes a new entry current.\<close>

definition pushState :: "history_state \<Rightarrow> string \<Rightarrow> app \<Rightarrow> app" where
  "pushState s h st =
     st\<lparr>past := current st # past st,
        current := \<lparr> entry_state = Some s, entry_hash = h \<rparr>,
        future := []\<rparr>"

text \<open>
  \<^verbatim>\<open>history.replaceState(null, title, pathname + search)\<close>: the current entry loses
  its state object and its fragment; no entry is added.
\<close>

definition replaceStateNull :: "app \<Rightarrow> app" where
  "replaceStateNull st = st\<lparr>current := \<lparr> entry_state = None, entry_hash = [] \<rparr>\<rparr>"

definition location_hash :: "app \<Rightarrow> string" where
  "location_hash st = entry_hash (current st)"

text \<open>One \<^verbatim>\<open>fetch\<close>: the request is logged; \<open>net\<close> gives the outcome of the n-th request.\<close>

definition fetch :: "(nat \<Rightarrow> fetch_result) \<Rightarrow> string \<Rightarrow> app \<Rightarrow> fetch_result \<times> app" where
  "fetch net url st = (net (length (requests st)), st\<lparr>requests := requests st @ [url]\<rparr>)"

subsection \<open>Catalog loader\<close>

text \<open>
  The \<^verbatim>\<open>try / catch / finally\<close> block of the \<^verbatim>\<open>onMounted\<close> hook.
  \<^verbatim>\<open>!book.size_in_bytes\<close> holds for a missing field and for the number 0.
  A body without a \<open>book\<close> array makes \<^verbatim>\<open>res.data.book.filter\<close> throw inside the
  \<^verbatim>\<open>try\<close>.  The hook goes on to call \<^verbatim>\<open>loadFavorites\<close> and to register its
  listeners; that part is not embedded, so \<open>onMounted\<close> below is the catalog load alone and
  leaves the favourites untouched.
\<close>

definition keepBook :: "book \<Rightarrow> bool" where
  "keepBook b = (case size_in_bytes b of None \<Rightarrow> True | Some n \<Rightarrow> n = 0 \<or> n > 1407)"

definition onMounted :: "string \<Rightarrow> axios_result \<Rightarrow> app \<Rightarrow> app" where
  "onMounted baseUrl res st =
     (let st0 = st\<lparr>requests := requests st @ [baseUrl @ ''/summary.json'']\<rparr>;
          st1 = (case res of
                   AxiosData (Some bs) \<Rightarrow> st0\<lparr>books := filter keepBook bs\<rparr>
                 | _ \<Rightarrow> st0\<lparr>error := Some ''Failed to load books.''\<rparr>)
      in st1\<lparr>loading := False\<rparr>)"

subsection \<open>Favourites\<close>

definition getFavoriteKey :: "book \<Rightarrow> string" where
  "getFavoriteKey b = author b @ ''|'' @ name b"

text \<open>The \<^verbatim>\<open>catch\<close> of \<open>saveFavorites\<close> only logs: a failed write leaves the state as it is.\<close>

definition saveFavorites :: "app \<Rightarrow> app" where
  "saveFavorites st =
     (case setItem ''epub-favorites'' (JSON_stringify (favorites st)) st of
        Some st' \<Rightarrow> st'
      | None \<Rightarrow> st)"

definition isFavorite :: "app \<Rightarrow> book \<Rightarrow> bool" where
  "isFavorite st b = (getFavoriteKey b \<in> set (favorites st))"

text \<open>\<^verbatim>\<open>splice(index, 1)\<close> at the index \<^verbatim>\<open>indexOf\<close> found removes the first occurrence.\<close>

definition toggleFavorite :: "book \<Rightarrow> app \<Rightarrow> app" where
  "toggleFavorite b st =
     (let key = getFavoriteKey b in
      saveFavorites
        (if key \<in> set (favorites st)
         then st\<lparr>favorites := remove1 key (favorites st)\<rparr>
         else st\<lparr>favorites := favorites st @ [key]\<rparr>))"

subsection \<open>Filter engine\<close>

text \<open>
  The computed \<open>filteredBooks\<close>: four filters, each applied only when its field is
  truthy.  The query is lower-cased and trimmed before it is matched.
\<close>

definition filteredBooks :: "app \<Rightarrow> book list" where
  "filteredBooks st =
     (let filtered = books st;
          filtered = (if trim (searchQuery st) \<noteq> []
                      then (let query = trim (toLowerCase (searchQuery st))
                            in filter (\<lambda>b. includes_str (toLowerCase (name b)) query) filtered)
                      else filtered);
          filtered = (if selectedAuthor st \<noteq> []
                      then filter (\<lambda>b. author b = selectedAuthor st) filtered
                      else filtered);
          filtered = (if selectedCategory st \<noteq> []
                      then filter (\<lambda>b. category b = Some (selectedCategory st)) filtered
                      else filtered);
          filtered = (if showFavoritesOnly st
                      then filter (\<lambda>b. isFavorite st b) filtered
                      else filtered)
      in filtered)"

definition favoriteCount :: "app \<Rightarrow> nat" where
  "favoriteCount st = length (filter (\<lambda>b. isFavorite st b) (books st))"

subsection \<open>Image cache\<close>

definition getCacheKey :: "string \<Rightarrow> string \<Rightarrow> string" where
  "getCacheKey a f = a @ ''|'' @ f"

definition isImageCached :: "app \<Rightarrow> string \<Rightarrow> string \<Rightarrow> bool" where
  "isImageCached st a f = (getItem (''img-cache-'' @ getCacheKey a f) st = Some ''true'')"

definition markImageAsCached :: "string \<Rightarrow> string \<Rightarrow> app \<Rightarrow> app option" where
  "markImageAsCached a f st = setItem (''img-cache-'' @ getCacheKey a f) ''true'' st"

text \<open>
  The remote address of a cover.  \<open>baseUrl\<close> is the configured
  \<^verbatim>\<open>VITE_API_BASE_URL\<close>.  \<open>cacheImage\<close> builds the same address in each of its blocks.
\<close>

definition getFallbackImageUrl :: "string \<Rightarrow> string \<Rightarrow> string \<Rightarrow> string" where
  "getFallbackImageUrl baseUrl a f =
     baseUrl @ ''/author/'' @ encodeURIComponent a @ ''/'' @ encodeURIComponent f @ ''.jpg''"

text \<open>
  \<open>cacheImage\<close> in three steps, as the source has them.  The result is the value the
  promise resolves to, \<open>None\<close> standing for \<^verbatim>\<open>null\<close>.

  First block (\<open>recacheImage\<close>): the key is flagged in \<^verbatim>\<open>localStorage\<close> from an earlier
  session; the image is fetched again and on success kept in memory only.  A failure
  of this block falls through to the second one.
\<close>

definition recacheImage ::
  "string \<Rightarrow> (nat \<Rightarrow> fetch_result) \<Rightarrow> string \<Rightarrow> string \<Rightarrow> app \<Rightarrow> string option \<times> app" where
  "recacheImage baseUrl net a f st =
     (case fetch net (getFallbackImageUrl baseUrl a f) st of
        (FetchOk blobUrl, st1) \<Rightarrow>
          (Some blobUrl,
           st1\<lparr>cachedImageUrls := (cachedImageUrls st1)(getCacheKey a f \<mapsto> blobUrl)\<rparr>)
      | (FetchNotOk, st1) \<Rightarrow> (None, st1)
      | (FetchRejected, st1) \<Rightarrow> (None, st1))"

text \<open>
  Second block (\<open>firstCacheImage\<close>): fetch, keep the blob URL in memory, then flag the key.
  \<open>markImageAsCached\<close> stands inside the \<^verbatim>\<open>try\<close>: when it throws, the \<^verbatim>\<open>catch\<close> logs
  and control reaches the fallback with the blob URL already stored.
\<close>

definition firstCacheImage ::
  "string \<Rightarrow> (nat \<Rightarrow> fetch_result) \<Rightarrow> string \<Rightarrow> string \<Rightarrow> app \<Rightarrow> string option \<times> app" where
  "firstCacheImage baseUrl net a f st =
     (case fetch net (getFallbackImageUrl baseUrl a f) st of
        (FetchOk blobUrl, st1) \<Rightarrow>
          (let st2 = st1\<lparr>cachedImageUrls := (cachedImageUrls st1)(getCacheKey a f \<mapsto> blobUrl)\<rparr>
           in case markImageAsCached a f st2 of
                Some st3 \<Rightarrow> (Some blobUrl, st3)
              | None \<Rightarrow> (None, st2))
      | (FetchNotOk, st1) \<Rightarrow> (None, st1)
      | (FetchRejected, st1) \<Rightarrow> (None, st1))"

definition cacheImage ::
  "string \<Rightarrow> (nat \<Rightarrow> fetch_result) \<Rightarrow> string \<Rightarrow> string \<Rightarrow> app \<Rightarrow> string option \<times> app" where
  "cacheImage baseUrl net a f st =
     (case cachedImageUrls st (getCacheKey a f) of
        Some url \<Rightarrow> (Some url, st)
      | None \<Rightarrow>
          (case (if isImageCached st a f then recacheImage baseUrl net a f st else (None, st)) of
             (Some blobUrl, st1) \<Rightarrow> (Some blobUrl, st1)
           | (None, st1) \<Rightarrow>
               (case firstCacheImage baseUrl net a f st1 of
                  (Some blobUrl, st2) \<Rightarrow> (Some blobUrl, st2)
                | (None, st2) \<Rightarrow> (Some (getFallbackImageUrl baseUrl a f), st2))))"

definition getImageUrl ::
  "string \<Rightarrow> (nat \<Rightarrow> fetch_result) \<Rightarrow> string \<Rightarrow> string \<Rightarrow> app \<Rightarrow> string option \<times> app" where
  "getImageUrl baseUrl net a f st =
     (case cachedImageUrls st (getCacheKey a f) of
        Some url \<Rightarrow> (Some url, st)
      | None \<Rightarrow> cacheImage baseUrl net a f st)"

text \<open>\<^verbatim>\<open>cachedImageUrls.value.get(cacheKey) || null\<close>, what the template shows first.\<close>

definition getCachedImageUrlForTemplate :: "app \<Rightarrow> string \<Rightarrow> string \<Rightarrow> string option" where
  "getCachedImageUrlForTemplate st a f = cachedImageUrls st (getCacheKey a f)"

text \<open>Successive calls of \<open>cacheImage\<close> in one session, one per (author, filename) pair.\<close>

fun cacheImages ::
  "string \<Rightarrow> (nat \<Rightarrow> fetch_result) \<Rightarrow> (string \<times> string) list \<Rightarrow> app \<Rightarrow> app" where
  "cacheImages baseUrl net [] st = st"
| "cacheImages baseUrl net ((a, f) # cs) st =
     cacheImages baseUrl net cs (snd (cacheImage baseUrl net a f st))"

subsection \<open>Navigation and history\<close>

definition showBookDetails :: "book \<Rightarrow> app \<Rightarrow> app" where
  "showBookDetails b st =
     pushState (BookDetail (name b)) (''#book-'' @ encodeURIComponent (name b))
       (st\<lparr>selectedBook := Some b, showBookDetail := True\<rparr>)"

definition closeBookDetail :: "app \<Rightarrow> app" where
  "closeBookDetail st =
     (let st1 = st\<lparr>showBookDetail := False, selectedBook := None\<rparr>
      in if location_hash st1 \<noteq> [] then replaceStateNull st1 else st1)"

text \<open>
  \<open>closeEpubReader\<close> takes \<open>skipHistoryBack\<close> and never reads it.  Tearing down the
  rendering engine and its key listener is outside the model.
\<close>

definition closeEpubReader :: "bool \<Rightarrow> app \<Rightarrow> app" where
  "closeEpubReader skipHistoryBack st =
     (let st1 = st\<lparr>showEpubReader := False, currentBook := None\<rparr>
      in if location_hash st1 \<noteq> [] then replaceStateNull st1 else st1)"

text \<open>
  \<open>openEpubReader\<close> up to its first \<^verbatim>\<open>await\<close>.  What follows only drives the rendering
  engine; when that fails, the \<^verbatim>\<open>catch\<close> calls \<open>closeEpubReader\<close> at some later time,
  which is the close-reader operation below.
\<close>

definition openEpubReader :: "book \<Rightarrow> app \<Rightarrow> app" where
  "openEpubReader b st =
     pushState (EpubReader (name b)) (''#reading-'' @ encodeURIComponent (name b))
       (st\<lparr>currentBook := Some b, showEpubReader := True, showBookDetail := False\<rparr>)"

definition handlePopState :: "history_state option \<Rightarrow> app \<Rightarrow> app" where
  "handlePopState event_state st =
     (case event_state of
        Some (EpubReader bookName) \<Rightarrow>
          (case find (\<lambda>b. name b = bookName) (books st) of
             Some b \<Rightarrow> if \<not> showEpubReader st then openEpubReader b st else st
           | None \<Rightarrow> st)
      | Some (BookDetail bookName) \<Rightarrow>
          (let st1 = (case find (\<lambda>b. name b = bookName) (books st) of
                        Some b \<Rightarrow> st\<lparr>selectedBook := Some b, showBookDetail := True\<rparr>
                      | None \<Rightarrow> st)
           in if showEpubReader st1 then closeEpubReader True st1 else st1)
      | None \<Rightarrow>
          (let st1 = (if showEpubReader st then closeEpubReader True st else st)
           in if showBookDetail st1
              then st1\<lparr>showBookDetail := False, selectedBook := None\<rparr>
              else st1))"

text \<open>
  The browser's back and forward buttons: the neighbouring entry becomes current and
  the \<^verbatim>\<open>popstate\<close> listener runs on its state object.  Without a neighbour in that
  direction nothing happens to the page.
\<close>

definition browserBack :: "app \<Rightarrow> app" where
  "browserBack st =
     (case past st of
        [] \<Rightarrow> st
      | e # es \<Rightarrow>
          handlePopState (entry_state e)
            (st\<lparr>past := es, current := e, future := current st # future st\<rparr>))"

definition browserForward :: "app \<Rightarrow> app" where
  "browserForward st =
     (case future st of
        [] \<Rightarrow> st
      | e # es \<Rightarrow>
          handlePopState (entry_state e)
            (st\<lparr>past := current st # past st, current := e, future := es\<rparr>))"

text \<open>The operations a user can trigger on the two modals, and a sequence of them.\<close>

datatype nav_event =
  SelectBook book | OpenReader book | CloseDetail | CloseReader | Back | Forward

fun nav_step :: "nav_event \<Rightarrow> app \<Rightarrow> app" where
  "nav_step (SelectBook b) st = showBookDetails b st"
| "nav_step (OpenReader b) st = openEpubReader b st"
| "nav_step CloseDetail st = closeBookDetail st"
| "nav_step CloseReader st = closeEpubReader False st"
| "nav_step Back st = browserBack st"
| "nav_step Forward st = browserForward st"

fun nav_run :: "nav_event list \<Rightarrow> app \<Rightarrow> app" where
  "nav_run [] st = st"
| "nav_run (e # es) st = nav_run es (nav_step e st)"

section \<open>Vocabulary of the properties\<close>

text \<open>The catalog of the specification's scenario.\<close>

definition bookX :: book where
  "bookX = \<lparr> name = ''X'', author = ''A'', category = Some ''Fiction'',
             isCoverImg = True, size_in_bytes = None \<rparr>"

definition bookY :: book where
  "bookY = \<lparr> name = ''Y'', author = ''B'', category = Some ''Poetry'',
             isCoverImg = False, size_in_bytes = None \<rparr>"

definition catalogXY :: app where
  "catalogXY = initial\<lparr>books := [bookX, bookY], loading := False\<rparr>"

text \<open>A book passes every constraint of the filter state that is switched on.\<close>

definition activeConstraints :: "app \<Rightarrow> book \<Rightarrow> bool" where
  "activeConstraints st b =
     ((trim (searchQuery st) \<noteq> [] \<longrightarrow>
         includes_str (toLowerCase (name b)) (trim (toLowerCase (searchQuery st)))) \<and>
      (selectedAuthor st \<noteq> [] \<longrightarrow> author b = selectedAuthor st) \<and>
      (selectedCategory st \<noteq> [] \<longrightarrow> category b = Some (selectedCategory st)) \<and>
      (showFavoritesOnly st \<longrightarrow> getFavoriteKey b \<in> set (favorites st)))"

fun fetch_failed :: "fetch_result \<Rightarrow> bool" where
  "fetch_failed (FetchOk u) = False"
| "fetch_failed FetchNotOk = True"
| "fetch_failed FetchRejected = True"

text \<open>
  Every key flagged in \<^verbatim>\<open>localStorage\<close> is the key of an image whose address was
  requested with success at some point of the log.
\<close>

definition flags_backed :: "string \<Rightarrow> (nat \<Rightarrow> fetch_result) \<Rightarrow> app \<Rightarrow> bool" where
  "flags_backed B net st =
     (\<forall>k. localStorage st (''img-cache-'' @ k) = Some ''true'' \<longrightarrow>
        (\<exists>a f i u. getCacheKey a f = k \<and> i < length (requests st) \<and>
           requests st ! i = getFallbackImageUrl B a f \<and> net i = FetchOk u))"

text \<open>
  The modal that is open matches the state object of the current history entry: no
  state object and nothing open, a \<open>bookDetail\<close> object and the detail view open on a
  book of that name, or an \<open>epubReader\<close> object and the reader open on a book of that
  name.
\<close>

definition corresponds :: "app \<Rightarrow> bool" where
  "corresponds st =
     (case entry_state (current st) of
        None \<Rightarrow> \<not> showBookDetail st \<and> \<not> showEpubReader st
      | Some (BookDetail n) \<Rightarrow>
          showBookDetail st \<and> \<not> showEpubReader st \<and> map_option name (selectedBook st) = Some n
      | Some (EpubReader n) \<Rightarrow>
          showEpubReader st \<and> \<not> showBookDetail st \<and> map_option name (currentBook st) = Some n)"

definition is_detail_entry :: "history_entry \<Rightarrow> bool" where
  "is_detail_entry e = (case entry_state e of Some (BookDetail n) \<Rightarrow> True | _ \<Rightarrow> False)"

text \<open>
  When the operations are issued.  A book is selected, and the reader opened, for a book
  of the catalog while the reader is not shown; the detail view is not closed while the
  reader is shown, nor the reader while the detail view is shown; and the browser does not
  step onto a \<open>bookDetail\<close> entry while the reader is shown.
\<close>

fun offered :: "nav_event \<Rightarrow> app \<Rightarrow> bool" where
  "offered (SelectBook b) st = (b \<in> set (books st) \<and> \<not> showEpubReader st)"
| "offered (OpenReader b) st = (b \<in> set (books st) \<and> \<not> showEpubReader st)"
| "offered CloseDetail st = (\<not> showEpubReader st)"
| "offered CloseReader st = (\<not> showBookDetail st)"
| "offered Back st =
     (\<not> (showEpubReader st \<and> (case past st of [] \<Rightarrow> False | e # es \<Rightarrow> is_detail_entry e)))"
| "offered Forward st =
     (\<not> (showEpubReader st \<and> (case future st of [] \<Rightarrow> False | e # es \<Rightarrow> is_detail_entry e)))"

fun offered_run :: "nav_event list \<Rightarrow> app \<Rightarrow> bool" where
  "offered_run [] st = True"
| "offered_run (e # es) st = (offered e st \<and> offered_run es (nav_step e st))"

text \<open>
  The weaker condition that only asks that no book is selected while the reader is
  shown.
\<close>

fun select_gated :: "nav_event list \<Rightarrow> app \<Rightarrow> bool" where
  "select_gated [] st = True"
| "select_gated (SelectBook b # es) st =
     (\<not> showEpubReader st \<and> select_gated es (nav_step (SelectBook b) st))"
| "select_gated (e # es) st = select_gated es (nav_step e st)"

text \<open>
  The closed state a page starts in: no modal, and a history of one entry without state
  object.
\<close>

definition closed_start :: "app \<Rightarrow> bool" where
  "closed_start st =
     (\<not> showBookDetail st \<and> \<not> showEpubReader st \<and> entry_state (current st) = None \<and>
      past st = [] \<and> future st = [])"

text \<open>
  What the history keeps true along such sequences: an entry with a state object has a
  fragment and names a catalog book, and neighbouring \<open>epubReader\<close> entries name the
  same book.
\<close>

definition entry_ok :: "book list \<Rightarrow> history_entry \<Rightarrow> bool" where
  "entry_ok bs e =
     (case entry_state e of
        None \<Rightarrow> True
      | Some (BookDetail n) \<Rightarrow> entry_hash e \<noteq> [] \<and> n \<in> name ` set bs
      | Some (EpubReader n) \<Rightarrow> entry_hash e \<noteq> [] \<and> n \<in> name ` set bs)"

definition readers_agree :: "history_entry \<Rightarrow> history_entry \<Rightarrow> bool" where
  "readers_agree e1 e2 =
     (case (entry_state e1, entry_state e2) of
        (Some (EpubReader n), Some (EpubReader m)) \<Rightarrow> n = m
      | _ \<Rightarrow> True)"

fun chain :: "history_entry \<Rightarrow> history_entry list \<Rightarrow> bool" where
  "chain c [] = True"
| "chain c (e # es) = (readers_agree c e \<and> chain e es)"

definition hist_ok :: "app \<Rightarrow> bool" where
  "hist_ok st =
     ((\<forall>e \<in> set (past st) \<union> {current st} \<union> set (future st). entry_ok (books st) e) \<and>
      chain (current st) (past st) \<and> chain (current st) (future st))"

definition nav_inv :: "app \<Rightarrow> bool" where
  "nav_inv st = (corresponds st \<and> hist_ok st)"

section \<open>Properties\<close>

subsection \<open>Filter engine\<close>

lemma filteredBooks_filter:
  "filteredBooks st = filter (activeConstraints st) (books st)"
  unfolding filteredBooks_def activeConstraints_def isFavorite_def Let_def
  by (auto intro!: filter_cong)

lemma length_filter_mono:
  "(\<And>x. x \<in> set xs \<Longrightarrow> P x \<Longrightarrow> Q x) \<Longrightarrow> length (filter P xs) \<le> length (filter Q xs)"
  by (induction xs) auto

lemma trim_Nil: "trim [] = []"
  by (simp add: trim_def)




text \<open>
  Claim C8: switching on one more constraint (a search query where there was none, an
  author or a category where none was selected, favourites only) and leaving the other
  fields alone never makes the result longer.
\<close>

theorem filteredBooks_additional_constraint:
  "(searchQuery st = [] \<longrightarrow>
      length (filteredBooks (st\<lparr>searchQuery := q\<rparr>)) \<le> length (filteredBooks st)) \<and>
   (selectedAuthor st = [] \<longrightarrow>
      length (filteredBooks (st\<lparr>selectedAuthor := a\<rparr>)) \<le> length (filteredBooks st)) \<and>
   (selectedCategory st = [] \<longrightarrow>
      length (filteredBooks (st\<lparr>selectedCategory := c\<rparr>)) \<le> length (filteredBooks st)) \<and>
   (\<not> showFavoritesOnly st \<longrightarrow>
      length (filteredBooks (st\<lparr>showFavoritesOnly := True\<rparr>)) \<le> length (filteredBooks st))"
  by (auto simp: filteredBooks_filter activeConstraints_def trim_Nil intro!: length_filter_mono)

theorem filteredBooks_additional_constraint_witness:
  "length (filteredBooks (catalogXY\<lparr>searchQuery := ''y''\<rparr>)) \<le> length (filteredBooks catalogXY) \<and>
   length (filteredBooks (catalogXY\<lparr>selectedAuthor := ''A''\<rparr>)) \<le> length (filteredBooks catalogXY) \<and>
   length (filteredBooks (catalogXY\<lparr>selectedCategory := ''Poetry''\<rparr>)) \<le> length (filteredBooks catalogXY) \<and>
   length (filteredBooks (catalogXY\<lparr>showFavoritesOnly := True\<rparr>)) \<le> length (filteredBooks catalogXY)"
proof -
  have h: "searchQuery catalogXY = []" "selectedAuthor catalogXY = []"
    "selectedCategory catalogXY = []" "\<not> showFavoritesOnly catalogXY"
    by (simp_all add: catalogXY_def initial_def)
  from filteredBooks_additional_constraint [of catalogXY "''y''" "''A''" "''Poetry''"] h
  show ?thesis by blast
qed

text \<open>
  Claim C10: the favourite count is the number of catalog positions whose book has its
  key \<open>author|name\<close> among the favourites; a stored key that is the key of no catalog book
  adds nothing to it, so the count can differ from the size of the stored list.
\<close>

theorem favoriteCount_counts_catalog:
  "favoriteCount st =
     card {i. i < length (books st) \<and> getFavoriteKey (books st ! i) \<in> set (favorites st)} \<and>
   (k \<notin> getFavoriteKey ` set (books st) \<longrightarrow>
      favoriteCount (st\<lparr>favorites := favorites st @ [k]\<rparr>) = favoriteCount st)"
proof (intro conjI impI)
  show "favoriteCount st =
     card {i. i < length (books st) \<and> getFavoriteKey (books st ! i) \<in> set (favorites st)}"
    by (simp add: favoriteCount_def isFavorite_def length_filter_conv_card)
next
  assume "k \<notin> getFavoriteKey ` set (books st)"
  then have "filter (\<lambda>b. getFavoriteKey b \<in> set (favorites st @ [k])) (books st) =
             filter (\<lambda>b. getFavoriteKey b \<in> set (favorites st)) (books st)"
    by (intro filter_cong) auto
  then show "favoriteCount (st\<lparr>favorites := favorites st @ [k]\<rparr>) = favoriteCount st"
    by (simp add: favoriteCount_def isFavorite_def)
qed

text \<open>Two stored keys, one of them of a book that is not in the catalog: the count is 1.\<close>

theorem favoriteCount_counts_catalog_witness:
  "favoriteCount (catalogXY\<lparr>favorites := [''A|X''] @ [''C|Gone'']\<rparr>) = 1 \<and>
   length (favorites (catalogXY\<lparr>favorites := [''A|X''] @ [''C|Gone'']\<rparr>)) = 2"
proof -
  let ?st = "catalogXY\<lparr>favorites := [''A|X'']\<rparr>"
  have h: "''C|Gone'' \<notin> getFavoriteKey ` set (books ?st)" by code_simp
  have c: "favoriteCount ?st = 1" by code_simp
  from favoriteCount_counts_catalog [of ?st "''C|Gone''"] h c show ?thesis by simp
qed

subsection \<open>Favourites\<close>

lemma favorites_saveFavorites: "favorites (saveFavorites st) = favorites st"
  by (auto simp: saveFavorites_def setItem_def)

lemma favorites_toggleFavorite:
  "favorites (toggleFavorite b st) =
     (if getFavoriteKey b \<in> set (favorites st) then remove1 (getFavoriteKey b) (favorites st)
      else favorites st @ [getFavoriteKey b])"
  by (simp add: toggleFavorite_def Let_def favorites_saveFavorites)

text \<open>The list of favourites has no duplicates at the start, and a toggle keeps it so.\<close>

lemma distinct_favorites_initial: "distinct (favorites initial)"
  by (simp add: initial_def)

lemma distinct_toggleFavorite:
  "distinct (favorites st) \<Longrightarrow> distinct (favorites (toggleFavorite b st))"
  by (simp add: favorites_toggleFavorite)

text \<open>One toggle inserts the key if it is absent and removes it if it is present.\<close>

lemma isFavorite_toggleFavorite:
  "distinct (favorites st) \<Longrightarrow> isFavorite (toggleFavorite b st) b = (\<not> isFavorite st b)"
  by (simp add: isFavorite_def favorites_toggleFavorite)

text \<open>When the write fails, the stored favourites stay what they were.\<close>

lemma toggleFavorite_unwritable:
  "\<not> storageWritable st \<Longrightarrow> localStorage (toggleFavorite b st) = localStorage st"
  by (simp add: toggleFavorite_def saveFavorites_def setItem_def Let_def)

text \<open>
  Claim C4: for a set of favourites (a list without duplicates) toggling the same book
  twice gives its key the membership it had; and what a toggle writes to
  \<^verbatim>\<open>localStorage\<close> under \<open>epub-favorites\<close> is the serialised list that is in memory right
  after the toggle.
\<close>

theorem toggleFavorite_twice_persisted:
  "(distinct (favorites st) \<longrightarrow>
      isFavorite (toggleFavorite b (toggleFavorite b st)) b = isFavorite st b) \<and>
   (storageWritable st \<longrightarrow>
      getItem ''epub-favorites'' (toggleFavorite b st) =
        Some (JSON_stringify (favorites (toggleFavorite b st))))"
proof (intro conjI impI)
  assume d: "distinct (favorites st)"
  then show "isFavorite (toggleFavorite b (toggleFavorite b st)) b = isFavorite st b"
    by (simp add: isFavorite_toggleFavorite distinct_toggleFavorite)
next
  assume "storageWritable st"
  then show "getItem ''epub-favorites'' (toggleFavorite b st) =
        Some (JSON_stringify (favorites (toggleFavorite b st)))"
    by (simp add: toggleFavorite_def saveFavorites_def setItem_def getItem_def Let_def)
qed

theorem toggleFavorite_twice_persisted_witness:
  "isFavorite (toggleFavorite bookX (toggleFavorite bookX catalogXY)) bookX =
     isFavorite catalogXY bookX \<and>
   \<not> isFavorite catalogXY bookX \<and>
   getItem ''epub-favorites'' (toggleFavorite bookX catalogXY) =
     Some (JSON_stringify [''A|X''])"
proof -
  have d: "distinct (favorites catalogXY)" by (simp add: catalogXY_def initial_def)
  have w: "storageWritable catalogXY" by (simp add: catalogXY_def initial_def)
  have n: "\<not> isFavorite catalogXY bookX" by (simp add: isFavorite_def catalogXY_def initial_def)
  have f: "favorites (toggleFavorite bookX catalogXY) = [''A|X'']"
    by (simp add: favorites_toggleFavorite catalogXY_def initial_def getFavoriteKey_def bookX_def)
  from toggleFavorite_twice_persisted [of catalogXY bookX] d w n f show ?thesis by simp
qed

subsection \<open>Catalog loader\<close>

text \<open>The load issues one request, whatever comes back, and clears the loading flag.\<close>

lemma onMounted_one_request:
  "requests (onMounted baseUrl res st) = requests st @ [baseUrl @ ''/summary.json''] \<and>
   \<not> loading (onMounted baseUrl res st)"
  by (simp add: onMounted_def Let_def split: axios_result.split option.split)

text \<open>A failed load sets the error flag and leaves the catalog as it was.\<close>

lemma onMounted_failure:
  "res = AxiosError \<or> res = AxiosData None \<Longrightarrow>
   error (onMounted baseUrl res st) = Some ''Failed to load books.'' \<and>
   books (onMounted baseUrl res st) = books st"
  by (auto simp: onMounted_def Let_def)

text \<open>
  A successful load keeps, in order, the entries without size, of size 0, or of a size
  above 1407.
\<close>

lemma onMounted_success:
  "books (onMounted baseUrl (AxiosData (Some bs)) st) =
     filter (\<lambda>b. size_in_bytes b = None \<or> size_in_bytes b = Some 0 \<or>
                 (\<exists>n. size_in_bytes b = Some n \<and> n > 1407)) bs \<and>
   error (onMounted baseUrl (AxiosData (Some bs)) st) = error st"
  by (auto simp: onMounted_def Let_def keepBook_def intro!: filter_cong split: option.split)

text \<open>
  Claim C5 (the code departs from it): an entry whose \<open>size_in_bytes\<close> is 0 lies below
  the threshold, and the comment in the script says that sizes up to 1407 are removed, but
  the entry is kept, because \<^verbatim>\<open>!book.size_in_bytes\<close> holds for the number 0 as it does
  for a missing field.
\<close>

theorem onMounted_keeps_zero_size:
  "books (onMounted ''https://host''
            (AxiosData (Some [bookX\<lparr>size_in_bytes := Some 0\<rparr>, bookY\<lparr>size_in_bytes := Some 1407\<rparr>]))
            initial)
     = [bookX\<lparr>size_in_bytes := Some 0\<rparr>]"
  by (simp add: onMounted_def keepBook_def)

subsection \<open>Image cache\<close>

text \<open>
  The two blocks of \<open>cacheImage\<close> spelled out by the outcome of the fetch they issue.
\<close>

lemma fetch_simps:
  "fst (fetch net url st) = net (length (requests st))"
  "snd (fetch net url st) = st\<lparr>requests := requests st @ [url]\<rparr>"
  by (simp_all add: fetch_def)

lemma recacheImage_cases:
  "recacheImage B net a f st =
     (case net (length (requests st)) of
        FetchOk u \<Rightarrow> (Some u, st\<lparr>requests := requests st @ [getFallbackImageUrl B a f],
                                   cachedImageUrls := (cachedImageUrls st)(getCacheKey a f \<mapsto> u)\<rparr>)
      | _ \<Rightarrow> (None, st\<lparr>requests := requests st @ [getFallbackImageUrl B a f]\<rparr>))"
  by (simp add: recacheImage_def fetch_def split: fetch_result.split)

lemma firstCacheImage_cases:
  "firstCacheImage B net a f st =
     (case net (length (requests st)) of
        FetchOk u \<Rightarrow>
          (if storageWritable st
           then (Some u, st\<lparr>requests := requests st @ [getFallbackImageUrl B a f],
                            cachedImageUrls := (cachedImageUrls st)(getCacheKey a f \<mapsto> u),
                            localStorage := (localStorage st)(''img-cache-'' @ getCacheKey a f \<mapsto> ''true'')\<rparr>)
           else (None, st\<lparr>requests := requests st @ [getFallbackImageUrl B a f],
                            cachedImageUrls := (cachedImageUrls st)(getCacheKey a f \<mapsto> u)\<rparr>))
      | _ \<Rightarrow> (None, st\<lparr>requests := requests st @ [getFallbackImageUrl B a f]\<rparr>))"
  by (simp add: firstCacheImage_def fetch_def markImageAsCached_def setItem_def Let_def
           split: fetch_result.split)

lemma cacheImage_hit:
  "cachedImageUrls st (getCacheKey a f) = Some u \<Longrightarrow> cacheImage B net a f st = (Some u, st)"
  by (simp add: cacheImage_def)

lemma getImageUrl_hit:
  "cachedImageUrls st (getCacheKey a f) = Some u \<Longrightarrow> getImageUrl B net a f st = (Some u, st)"
  by (simp add: getImageUrl_def)

lemma getImageUrl_cacheImage: "getImageUrl B net a f st = cacheImage B net a f st"
  by (simp add: getImageUrl_def cacheImage_def split: option.split)

text \<open>
  Claim C6, as stated: with no blob URL in memory for the key and a failing fetch,
  \<open>cacheImage\<close> returns \<^verbatim>\<open>null\<close>.  It does not: for a rejected fetch and for a
  response that is not ok alike, the result is a string.
\<close>

theorem cacheImage_null_counterexample:
  "cachedImageUrls initial (getCacheKey ''A'' ''X'') = None \<and>
   fst (cacheImage ''https://host'' (\<lambda>n. FetchRejected) ''A'' ''X'' initial) \<noteq> None \<and>
   fst (cacheImage ''https://host'' (\<lambda>n. FetchNotOk) ''A'' ''X'' initial) \<noteq> None"
  by (simp add: cacheImage_def initial_def isImageCached_def getItem_def firstCacheImage_cases)

text \<open>
  Claim C6, amended: for every key without a blob URL in memory, if every fetch the call
  issues fails (the promise rejects or the response is not ok; a key flagged in
  \<^verbatim>\<open>localStorage\<close> is fetched a second time after a first failure), then \<open>cacheImage\<close>,
  and \<open>getImageUrl\<close> with it, returns the direct remote address
  \<open>base/author/{author}/{filename}.jpg\<close> of the image, not \<^verbatim>\<open>null\<close>.  The failure is a
  branch of the function and ends in that value; the template still finds no cached URL
  for the key and so shows the remote address itself.
\<close>

theorem cacheImage_fetch_failure:
  assumes "cachedImageUrls st (getCacheKey a f) = None"
    and "fetch_failed (net (length (requests st)))"
    and "isImageCached st a f \<longrightarrow> fetch_failed (net (Suc (length (requests st))))"
  shows "fst (cacheImage B net a f st) = Some (getFallbackImageUrl B a f) \<and>
         fst (getImageUrl B net a f st) = Some (getFallbackImageUrl B a f) \<and>
         getCachedImageUrlForTemplate (snd (cacheImage B net a f st)) a f = None"
  using assms
  by (auto simp: getImageUrl_cacheImage cacheImage_def recacheImage_cases firstCacheImage_cases
        getCachedImageUrlForTemplate_def
      split: fetch_result.splits)

theorem cacheImage_fetch_failure_witness:
  "fst (cacheImage ''https://host'' (\<lambda>n. FetchRejected) ''A'' ''X'' initial) =
     Some ''https://host/author/A/X.jpg'' \<and>
   fst (getImageUrl ''https://host'' (\<lambda>n. FetchRejected) ''A'' ''X'' initial) =
     Some ''https://host/author/A/X.jpg'' \<and>
   getCachedImageUrlForTemplate
     (snd (cacheImage ''https://host'' (\<lambda>n. FetchRejected) ''A'' ''X'' initial)) ''A'' ''X'' = None"
proof -
  have h1: "cachedImageUrls initial (getCacheKey ''A'' ''X'') = None"
    by (simp add: initial_def)
  have h2: "fetch_failed ((\<lambda>n. FetchRejected) (length (requests initial)))" by simp
  have h3: "isImageCached initial ''A'' ''X'' \<longrightarrow>
            fetch_failed ((\<lambda>n. FetchRejected) (Suc (length (requests initial))))" by simp
  have u: "getFallbackImageUrl ''https://host'' ''A'' ''X'' = ''https://host/author/A/X.jpg''"
    by code_simp
  from cacheImage_fetch_failure [OF h1 h2 h3, of "''https://host''"] u show ?thesis by simp
qed

text \<open>
  Claim C7, as stated: two successive calls for one key perform at most one fetch in
  total.  A failed fetch leaves nothing in memory, so the second call fetches again: with
  a server that answers not-ok, two calls from the initial state issue two requests.
\<close>

theorem getImageUrl_two_fetches_counterexample:
  "length (requests (snd (getImageUrl ''https://host'' (\<lambda>n. FetchNotOk) ''A'' ''X''
       (snd (getImageUrl ''https://host'' (\<lambda>n. FetchNotOk) ''A'' ''X'' initial))))) = 2 \<and>
   requests initial = []"
  by (simp add: getImageUrl_cacheImage cacheImage_def initial_def isImageCached_def getItem_def firstCacheImage_cases)

lemma cacheImage_first_ok:
  assumes "net (length (requests st)) = FetchOk u" "cachedImageUrls st (getCacheKey a f) = None"
  shows "requests (snd (cacheImage B net a f st)) = requests st @ [getFallbackImageUrl B a f] \<and>
         cachedImageUrls (snd (cacheImage B net a f st)) (getCacheKey a f) = Some u"
  using assms
  by (auto simp: cacheImage_def recacheImage_cases firstCacheImage_cases)

text \<open>
  Claim C7, amended: once a blob URL is in memory for the key, \<open>getImageUrl\<close> and
  \<open>cacheImage\<close> return it and change nothing, so no request is issued; and when the
  first fetch issued succeeds, two successive calls of \<open>getImageUrl\<close> for the key issue
  at most one request in total, the second call returning the blob URL held in memory.
\<close>

theorem getImageUrl_memoized:
  "(cachedImageUrls st (getCacheKey a f) = Some u \<longrightarrow>
      getImageUrl B net a f st = (Some u, st) \<and> cacheImage B net a f st = (Some u, st)) \<and>
   (net (length (requests st)) = FetchOk u \<longrightarrow>
      length (requests (snd (getImageUrl B net a f (snd (getImageUrl B net a f st)))))
        \<le> Suc (length (requests st)) \<and>
      fst (getImageUrl B net a f (snd (getImageUrl B net a f st))) \<noteq> None \<and>
      fst (getImageUrl B net a f (snd (getImageUrl B net a f st))) =
        cachedImageUrls (snd (getImageUrl B net a f st)) (getCacheKey a f))"
proof (intro conjI impI)
  assume h: "cachedImageUrls st (getCacheKey a f) = Some u"
  then show "getImageUrl B net a f st = (Some u, st)" by (rule getImageUrl_hit)
  from h show "cacheImage B net a f st = (Some u, st)" by (rule cacheImage_hit)
next
  assume ok: "net (length (requests st)) = FetchOk u"
  let ?st1 = "snd (getImageUrl B net a f st)"
  have "\<exists>v. cachedImageUrls ?st1 (getCacheKey a f) = Some v \<and>
             length (requests ?st1) \<le> Suc (length (requests st))"
  proof (cases "cachedImageUrls st (getCacheKey a f)")
    case None
    with ok cacheImage_first_ok [of net st u a f B] show ?thesis
      by (simp add: getImageUrl_cacheImage)
  next
    case (Some v)
    then show ?thesis by (simp add: getImageUrl_hit)
  qed
  then obtain v where v: "cachedImageUrls ?st1 (getCacheKey a f) = Some v"
    and l: "length (requests ?st1) \<le> Suc (length (requests st))" by blast
  from v have s: "getImageUrl B net a f ?st1 = (Some v, ?st1)" by (rule getImageUrl_hit)
  from s l show "length (requests (snd (getImageUrl B net a f ?st1))) \<le> Suc (length (requests st))"
    by simp
  from s show "fst (getImageUrl B net a f ?st1) \<noteq> None" by simp
  from s v show "fst (getImageUrl B net a f ?st1) = cachedImageUrls ?st1 (getCacheKey a f)" by simp
qed
theorem getImageUrl_memoized_witness:
  "getImageUrl ''https://host'' (\<lambda>n. FetchNotOk) ''A'' ''X''
     (initial\<lparr>cachedImageUrls := [getCacheKey ''A'' ''X'' \<mapsto> ''blob:1'']\<rparr>) =
     (Some ''blob:1'', initial\<lparr>cachedImageUrls := [getCacheKey ''A'' ''X'' \<mapsto> ''blob:1'']\<rparr>) \<and>
   length (requests (snd (getImageUrl ''https://host'' (\<lambda>n. FetchOk ''blob:1'') ''A'' ''X''
       (snd (getImageUrl ''https://host'' (\<lambda>n. FetchOk ''blob:1'') ''A'' ''X'' initial))))) \<le> Suc 0"
proof -
  let ?st = "initial\<lparr>cachedImageUrls := [getCacheKey ''A'' ''X'' \<mapsto> ''blob:1'']\<rparr>"
  have h1: "cachedImageUrls ?st (getCacheKey ''A'' ''X'') = Some ''blob:1''" by simp
  have h2: "(\<lambda>n. FetchOk ''blob:1'') (length (requests initial)) = FetchOk ''blob:1''" by simp
  have r: "length (requests initial) = 0" by (simp add: initial_def)
  from getImageUrl_memoized [of ?st "''A''" "''X''" "''blob:1''" "''https://host''" "\<lambda>n. FetchNotOk"] h1
  have a: "getImageUrl ''https://host'' (\<lambda>n. FetchNotOk) ''A'' ''X'' ?st = (Some ''blob:1'', ?st)"
    by blast
  from getImageUrl_memoized [of initial "''A''" "''X''" "''blob:1''" "''https://host''" "\<lambda>n. FetchOk ''blob:1''"] h2 r
  have b: "length (requests (snd (getImageUrl ''https://host'' (\<lambda>n. FetchOk ''blob:1'') ''A'' ''X''
       (snd (getImageUrl ''https://host'' (\<lambda>n. FetchOk ''blob:1'') ''A'' ''X'' initial))))) \<le> Suc 0"
    by simp
  from a b show ?thesis by blast
qed

text \<open>
  The request log only grows, and \<^verbatim>\<open>localStorage\<close> changes in one way only: the flag
  of the call's own key is set, after a successful fetch whose blob URL is in memory.
\<close>

lemma cacheImage_requests_prefix:
  "prefix (requests st) (requests (snd (cacheImage B net a f st)))"
  by (auto simp: cacheImage_def recacheImage_cases firstCacheImage_cases
      split: option.split fetch_result.split)

lemma cacheImage_storage_explicit:
  "localStorage (snd (cacheImage B net a f st)) = localStorage st \<or>
   (localStorage (snd (cacheImage B net a f st)) =
      (localStorage st)(''img-cache-'' @ getCacheKey a f \<mapsto> ''true'') \<and>
    (\<exists>u. cachedImageUrls (snd (cacheImage B net a f st)) (getCacheKey a f) = Some u \<and>
       ((net (length (requests st)) = FetchOk u \<and>
         requests (snd (cacheImage B net a f st)) =
           requests st @ [getFallbackImageUrl B a f]) \<or>
        (net (Suc (length (requests st))) = FetchOk u \<and>
         requests (snd (cacheImage B net a f st)) =
           requests st @ [getFallbackImageUrl B a f, getFallbackImageUrl B a f]))))"
  by (auto simp: cacheImage_def recacheImage_cases firstCacheImage_cases
      split: option.split fetch_result.split)

lemma cacheImage_storage_cases:
  "localStorage (snd (cacheImage B net a f st)) = localStorage st \<or>
   (localStorage (snd (cacheImage B net a f st)) =
      (localStorage st)(''img-cache-'' @ getCacheKey a f \<mapsto> ''true'') \<and>
    (\<exists>u i. i < length (requests (snd (cacheImage B net a f st))) \<and> length (requests st) \<le> i \<and>
       requests (snd (cacheImage B net a f st)) ! i = getFallbackImageUrl B a f \<and>
       net i = FetchOk u \<and>
       cachedImageUrls (snd (cacheImage B net a f st)) (getCacheKey a f) = Some u))"
proof -
  let ?st' = "snd (cacheImage B net a f st)"
  let ?n = "length (requests st)"
  let ?url = "getFallbackImageUrl B a f"
  from cacheImage_storage_explicit [of B net a f st]
  consider "localStorage ?st' = localStorage st"
    | u where "localStorage ?st' = (localStorage st)(''img-cache-'' @ getCacheKey a f \<mapsto> ''true'')"
        "cachedImageUrls ?st' (getCacheKey a f) = Some u"
        "net ?n = FetchOk u" "requests ?st' = requests st @ [?url]"
    | u where "localStorage ?st' = (localStorage st)(''img-cache-'' @ getCacheKey a f \<mapsto> ''true'')"
        "cachedImageUrls ?st' (getCacheKey a f) = Some u"
        "net (Suc ?n) = FetchOk u" "requests ?st' = requests st @ [?url, ?url]"
    by blast
  then show ?thesis
  proof cases
    case 1
    then show ?thesis by simp
  next
    case 2
    then have "?n < length (requests ?st') \<and> ?n \<le> ?n \<and> requests ?st' ! ?n = ?url \<and>
               net ?n = FetchOk u \<and> cachedImageUrls ?st' (getCacheKey a f) = Some u"
      by simp
    with 2(1) show ?thesis by blast
  next
    case 3
    then have "Suc ?n < length (requests ?st') \<and> ?n \<le> Suc ?n \<and>
               requests ?st' ! Suc ?n = ?url \<and>
               net (Suc ?n) = FetchOk u \<and> cachedImageUrls ?st' (getCacheKey a f) = Some u"
      by (simp add: nth_append)
    with 3(1) show ?thesis by blast
  qed
qed

lemma cacheImage_failure_unchanged:
  assumes "fetch_failed (net (length (requests st)))"
    and "isImageCached st a f \<longrightarrow> fetch_failed (net (Suc (length (requests st))))"
  shows "cachedImageUrls (snd (cacheImage B net a f st)) = cachedImageUrls st \<and>
         localStorage (snd (cacheImage B net a f st)) = localStorage st"
  using assms
  by (auto simp: cacheImage_def recacheImage_cases firstCacheImage_cases
      split: option.split fetch_result.splits)

lemma flags_backed_cacheImage:
  assumes "flags_backed B net st"
  shows "flags_backed B net (snd (cacheImage B net a f st))"
proof -
  let ?st' = "snd (cacheImage B net a f st)"
  from cacheImage_requests_prefix [of st B net a f]
  obtain zs where zs: "requests ?st' = requests st @ zs" by (auto simp: prefix_def)
  show ?thesis
    unfolding flags_backed_def
  proof (intro allI impI)
    fix k assume k: "localStorage ?st' (''img-cache-'' @ k) = Some ''true''"
    show "\<exists>a f i u. getCacheKey a f = k \<and> i < length (requests ?st') \<and>
           requests ?st' ! i = getFallbackImageUrl B a f \<and> net i = FetchOk u"
    proof (cases "localStorage st (''img-cache-'' @ k) = Some ''true''")
      case True
      with assms obtain a' f' i u where "getCacheKey a' f' = k" "i < length (requests st)"
        "requests st ! i = getFallbackImageUrl B a' f'" "net i = FetchOk u"
        unfolding flags_backed_def by blast
      with zs show ?thesis by (auto simp: nth_append intro!: exI)
    next
      case False
      with k cacheImage_storage_cases [of B net a f st]
      have "k = getCacheKey a f \<and>
            (\<exists>u i. i < length (requests ?st') \<and>
               requests ?st' ! i = getFallbackImageUrl B a f \<and> net i = FetchOk u)"
        by (auto split: if_splits)
      then show ?thesis by blast
    qed
  qed
qed

lemma flags_backed_cacheImages:
  "flags_backed B net st \<Longrightarrow> flags_backed B net (cacheImages B net cs st)"
  by (induction cs arbitrary: st) (auto simp: flags_backed_cacheImage)

text \<open>
  Claim C9: when every fetch a call of \<open>cacheImage\<close> issues fails, the map of blob URLs
  and \<^verbatim>\<open>localStorage\<close> are after the call what they were before; when the call changes
  \<^verbatim>\<open>localStorage\<close> at all, the change is the flag of the call's key, a fetch issued by
  this call for the key's image succeeded, and its blob URL is in memory under the key;
  hence, from a storage without flags, after any series of calls every flagged key is the
  key of an image for which the log holds a successful fetch.
\<close>

theorem cacheImage_failed_fetch_frame:
  "(fetch_failed (net (length (requests st))) \<and>
    (isImageCached st a f \<longrightarrow> fetch_failed (net (Suc (length (requests st))))) \<longrightarrow>
      cachedImageUrls (snd (cacheImage B net a f st)) = cachedImageUrls st \<and>
      localStorage (snd (cacheImage B net a f st)) = localStorage st) \<and>
   (localStorage (snd (cacheImage B net a f st)) \<noteq> localStorage st \<longrightarrow>
      localStorage (snd (cacheImage B net a f st)) =
        (localStorage st)(''img-cache-'' @ getCacheKey a f \<mapsto> ''true'') \<and>
      (\<exists>u i. i < length (requests (snd (cacheImage B net a f st))) \<and>
         length (requests st) \<le> i \<and>
         requests (snd (cacheImage B net a f st)) ! i = getFallbackImageUrl B a f \<and>
         net i = FetchOk u \<and>
         cachedImageUrls (snd (cacheImage B net a f st)) (getCacheKey a f) = Some u)) \<and>
   ((\<forall>k. localStorage st (''img-cache-'' @ k) \<noteq> Some ''true'') \<longrightarrow>
      flags_backed B net (cacheImages B net cs st))"
proof (intro conjI impI)
  assume "fetch_failed (net (length (requests st))) \<and>
    (isImageCached st a f \<longrightarrow> fetch_failed (net (Suc (length (requests st)))))"
  then show "cachedImageUrls (snd (cacheImage B net a f st)) = cachedImageUrls st"
    and "localStorage (snd (cacheImage B net a f st)) = localStorage st"
    using cacheImage_failure_unchanged [of net st a f B] by simp_all
next
  assume c: "localStorage (snd (cacheImage B net a f st)) \<noteq> localStorage st"
  with cacheImage_storage_cases [of B net a f st]
  show "localStorage (snd (cacheImage B net a f st)) =
        (localStorage st)(''img-cache-'' @ getCacheKey a f \<mapsto> ''true'')"
    by blast
  from c cacheImage_storage_cases [of B net a f st]
  show "\<exists>u i. i < length (requests (snd (cacheImage B net a f st))) \<and>
         length (requests st) \<le> i \<and>
         requests (snd (cacheImage B net a f st)) ! i = getFallbackImageUrl B a f \<and>
         net i = FetchOk u \<and>
         cachedImageUrls (snd (cacheImage B net a f st)) (getCacheKey a f) = Some u"
    by blast
next
  assume "\<forall>k. localStorage st (''img-cache-'' @ k) \<noteq> Some ''true''"
  then have "flags_backed B net st" by (simp add: flags_backed_def)
  then show "flags_backed B net (cacheImages B net cs st)" by (rule flags_backed_cacheImages)
qed
theorem cacheImage_failed_fetch_frame_witness:
  "cachedImageUrls (snd (cacheImage ''https://host'' (\<lambda>n. FetchNotOk) ''A'' ''X'' initial)) =
     cachedImageUrls initial \<and>
   localStorage (snd (cacheImage ''https://host'' (\<lambda>n. FetchNotOk) ''A'' ''X'' initial)) =
     localStorage initial \<and>
   localStorage (snd (cacheImage ''https://host'' (\<lambda>n. FetchOk ''blob:1'') ''A'' ''X'' initial)) =
     (localStorage initial)(''img-cache-'' @ getCacheKey ''A'' ''X'' \<mapsto> ''true'') \<and>
   cachedImageUrls (snd (cacheImage ''https://host'' (\<lambda>n. FetchOk ''blob:1'') ''A'' ''X'' initial))
     (getCacheKey ''A'' ''X'') = Some ''blob:1'' \<and>
   flags_backed ''https://host'' (\<lambda>n. FetchOk ''blob:1'')
     (cacheImages ''https://host'' (\<lambda>n. FetchOk ''blob:1'') [(''A'', ''X''), (''B'', ''Y'')] initial)"
proof -
  let ?f = "\<lambda>n::nat. FetchNotOk"
  let ?g = "\<lambda>n::nat. FetchOk ''blob:1''"
  have h1: "fetch_failed (?f (length (requests initial))) \<and>
            (isImageCached initial ''A'' ''X'' \<longrightarrow> fetch_failed (?f (Suc (length (requests initial)))))"
    by simp
  have h2: "localStorage (snd (cacheImage ''https://host'' ?g ''A'' ''X'' initial)) \<noteq>
            localStorage initial"
  proof
    assume e: "localStorage (snd (cacheImage ''https://host'' ?g ''A'' ''X'' initial)) =
            localStorage initial"
    have "localStorage (snd (cacheImage ''https://host'' ?g ''A'' ''X'' initial))
            (''img-cache-'' @ getCacheKey ''A'' ''X'') = Some ''true''"
      by (simp add: cacheImage_def initial_def isImageCached_def getItem_def firstCacheImage_cases)
    with e show False by (simp add: initial_def)
  qed
  have h3: "\<forall>k. localStorage initial (''img-cache-'' @ k) \<noteq> Some ''true''"
    by (simp add: initial_def)
  from cacheImage_failed_fetch_frame [of ?f initial "''A''" "''X''" "''https://host''"] h1
  have a: "cachedImageUrls (snd (cacheImage ''https://host'' ?f ''A'' ''X'' initial)) =
             cachedImageUrls initial \<and>
           localStorage (snd (cacheImage ''https://host'' ?f ''A'' ''X'' initial)) =
             localStorage initial"
    by blast
  from cacheImage_failed_fetch_frame [of ?g initial "''A''" "''X''" "''https://host''"
         "[(''A'', ''X''), (''B'', ''Y'')]"] h2 h3
  have b: "localStorage (snd (cacheImage ''https://host'' ?g ''A'' ''X'' initial)) =
             (localStorage initial)(''img-cache-'' @ getCacheKey ''A'' ''X'' \<mapsto> ''true'') \<and>
           (\<exists>u. ?g 0 = FetchOk u \<and>
             cachedImageUrls (snd (cacheImage ''https://host'' ?g ''A'' ''X'' initial))
               (getCacheKey ''A'' ''X'') = Some u) \<and>
           flags_backed ''https://host'' ?g
             (cacheImages ''https://host'' ?g [(''A'', ''X''), (''B'', ''Y'')] initial)"
    by blast
  from a b show ?thesis by auto
qed

subsection \<open>Navigation and history\<close>

lemma chain_change_head:
  "chain c es \<Longrightarrow> (\<And>e. readers_agree c e \<Longrightarrow> readers_agree c' e) \<Longrightarrow> chain c' es"
  by (cases es) auto

lemma readers_agree_None [simp]:
  "entry_state c = None \<Longrightarrow> readers_agree c e"
  "entry_state e = None \<Longrightarrow> readers_agree c e"
  by (auto simp: readers_agree_def split: option.splits history_state.splits)

lemma readers_agree_sym: "readers_agree a b = readers_agree b a"
  by (auto simp: readers_agree_def split: option.splits history_state.splits)

lemma find_name:
  "find (\<lambda>b. name b = n) bs = Some b \<Longrightarrow> name b = n \<and> b \<in> set bs"
  by (induction bs) (auto split: if_splits)

lemma find_name_None:
  "n \<in> name ` set bs \<Longrightarrow> find (\<lambda>b. name b = n) bs \<noteq> None"
  by (induction bs) auto

lemma inv_showBookDetails:
  assumes "nav_inv st" "b \<in> set (books st)" "\<not> showEpubReader st"
  shows "nav_inv (showBookDetails b st)"
  using assms
  by (auto simp: nav_inv_def corresponds_def hist_ok_def showBookDetails_def pushState_def
        entry_ok_def readers_agree_def
      split: option.splits history_state.splits)

lemma inv_openEpubReader:
  assumes "nav_inv st" "b \<in> set (books st)" "\<not> showEpubReader st"
  shows "nav_inv (openEpubReader b st)"
  using assms
  by (auto simp: nav_inv_def corresponds_def hist_ok_def openEpubReader_def pushState_def
        entry_ok_def readers_agree_def
      split: option.splits history_state.splits)

lemma inv_closeBookDetail:
  assumes "nav_inv st" "\<not> showEpubReader st"
  shows "nav_inv (closeBookDetail st)"
  using assms
  by (auto simp: nav_inv_def corresponds_def hist_ok_def closeBookDetail_def replaceStateNull_def
        location_hash_def entry_ok_def Let_def
      split: option.splits history_state.splits
      elim: chain_change_head)

lemma inv_closeEpubReader:
  assumes "nav_inv st" "\<not> showBookDetail st"
  shows "nav_inv (closeEpubReader skip st)"
  using assms
  by (auto simp: nav_inv_def corresponds_def hist_ok_def closeEpubReader_def replaceStateNull_def
        location_hash_def entry_ok_def Let_def
      split: option.splits history_state.splits
      elim: chain_change_head)


lemma corresponds_at_most_one:
  "corresponds st \<Longrightarrow> \<not> (showBookDetail st \<and> showEpubReader st)"
  by (auto simp: corresponds_def split: option.splits history_state.splits)

lemma inv_handlePopState:
  assumes hist: "hist_ok st"
    and one: "\<not> (showBookDetail st \<and> showEpubReader st)"
    and gate: "showEpubReader st \<Longrightarrow> \<not> is_detail_entry (current st)"
    and rd: "\<And>n. showEpubReader st \<Longrightarrow> entry_state (current st) = Some (EpubReader n) \<Longrightarrow>
               map_option name (currentBook st) = Some n"
  shows "nav_inv (handlePopState (entry_state (current st)) st)"
proof (cases "entry_state (current st)")
  case None
  with hist one show ?thesis
    by (auto simp: nav_inv_def corresponds_def hist_ok_def handlePopState_def closeEpubReader_def
          replaceStateNull_def location_hash_def entry_ok_def Let_def
        split: option.splits history_state.splits
        elim: chain_change_head)
next
  case (Some t)
  show ?thesis
  proof (cases t)
    case (BookDetail n)
    with Some hist have "n \<in> name ` set (books st)"
      by (auto simp: hist_ok_def entry_ok_def)
    then obtain b where b: "find (\<lambda>b. name b = n) (books st) = Some b"
      using find_name_None [of n "books st"] by auto
    then have nb: "name b = n" by (auto dest: find_name)
    from Some BookDetail gate have nr: "\<not> showEpubReader st"
      by (auto simp: is_detail_entry_def)
    from Some BookDetail b nb nr hist show ?thesis
      by (auto simp: nav_inv_def corresponds_def hist_ok_def handlePopState_def)
  next
    case (EpubReader n)
    with Some hist have in_names: "n \<in> name ` set (books st)" and hash: "entry_hash (current st) \<noteq> []"
      by (auto simp: hist_ok_def entry_ok_def)
    then obtain b where b: "find (\<lambda>b. name b = n) (books st) = Some b"
      using find_name_None [of n "books st"] by auto
    then have nb: "name b = n" by (auto dest: find_name)
    show ?thesis
    proof (cases "showEpubReader st")
      case True
      with rd Some EpubReader have "map_option name (currentBook st) = Some n" by simp
      with True one Some EpubReader b hist show ?thesis
        by (auto simp: nav_inv_def corresponds_def hist_ok_def handlePopState_def)
    next
      case False
      with Some EpubReader b nb hist in_names show ?thesis
        by (auto simp: nav_inv_def corresponds_def hist_ok_def handlePopState_def
              openEpubReader_def pushState_def entry_ok_def readers_agree_def)
    qed
  qed
qed

lemma inv_browserBack:
  assumes inv: "nav_inv st" and off: "offered Back st"
  shows "nav_inv (browserBack st)"
proof (cases "past st")
  case Nil
  with inv show ?thesis by (simp add: browserBack_def)
next
  case (Cons e es)
  let ?m = "st\<lparr>past := es, current := e, future := current st # future st\<rparr>"
  from inv Cons have h: "hist_ok ?m"
    by (auto simp: nav_inv_def hist_ok_def readers_agree_sym)
  from inv have one: "\<not> (showBookDetail ?m \<and> showEpubReader ?m)"
    by (auto simp: nav_inv_def dest: corresponds_at_most_one)
  from off Cons have gate: "showEpubReader ?m \<Longrightarrow> \<not> is_detail_entry (current ?m)"
    by auto
  have rd: "\<And>n. showEpubReader ?m \<Longrightarrow> entry_state (current ?m) = Some (EpubReader n) \<Longrightarrow>
               map_option name (currentBook ?m) = Some n"
    using inv Cons
    by (auto simp: nav_inv_def hist_ok_def corresponds_def readers_agree_def
        split: option.splits history_state.splits)
  from inv_handlePopState [OF h one gate rd] Cons show ?thesis
    by (simp add: browserBack_def)
qed

lemma inv_browserForward:
  assumes inv: "nav_inv st" and off: "offered Forward st"
  shows "nav_inv (browserForward st)"
proof (cases "future st")
  case Nil
  with inv show ?thesis by (simp add: browserForward_def)
next
  case (Cons e es)
  let ?m = "st\<lparr>past := current st # past st, current := e, future := es\<rparr>"
  from inv Cons have h: "hist_ok ?m"
    by (auto simp: nav_inv_def hist_ok_def readers_agree_sym)
  from inv have one: "\<not> (showBookDetail ?m \<and> showEpubReader ?m)"
    by (auto simp: nav_inv_def dest: corresponds_at_most_one)
  from off Cons have gate: "showEpubReader ?m \<Longrightarrow> \<not> is_detail_entry (current ?m)"
    by auto
  have rd: "\<And>n. showEpubReader ?m \<Longrightarrow> entry_state (current ?m) = Some (EpubReader n) \<Longrightarrow>
               map_option name (currentBook ?m) = Some n"
    using inv Cons
    by (auto simp: nav_inv_def hist_ok_def corresponds_def readers_agree_def
        split: option.splits history_state.splits)
  from inv_handlePopState [OF h one gate rd] Cons show ?thesis
    by (simp add: browserForward_def)
qed

lemma inv_nav_step:
  "nav_inv st \<Longrightarrow> offered ev st \<Longrightarrow> nav_inv (nav_step ev st)"
  by (cases ev)
     (simp_all add: inv_showBookDetails inv_openEpubReader inv_closeBookDetail
        inv_closeEpubReader inv_browserBack inv_browserForward)

lemma inv_nav_run:
  "nav_inv st \<Longrightarrow> offered_run evs st \<Longrightarrow> nav_inv (nav_run evs st)"
  by (induction evs arbitrary: st) (auto simp: inv_nav_step)

lemma closed_start_inv: "closed_start st \<Longrightarrow> nav_inv st"
  by (auto simp: closed_start_def nav_inv_def corresponds_def hist_ok_def entry_ok_def)

lemma at_most_one_handlePopState:
  "\<not> (showBookDetail st \<and> showEpubReader st) \<Longrightarrow>
   \<not> (showBookDetail (handlePopState t st) \<and> showEpubReader (handlePopState t st))"
  by (auto simp: handlePopState_def openEpubReader_def pushState_def closeEpubReader_def
        replaceStateNull_def Let_def
      split: option.splits history_state.splits)

lemma at_most_one_nav_step:
  assumes "\<not> (showBookDetail st \<and> showEpubReader st)"
    and "\<And>b. ev = SelectBook b \<Longrightarrow> \<not> showEpubReader st"
  shows "\<not> (showBookDetail (nav_step ev st) \<and> showEpubReader (nav_step ev st))"
proof (cases ev)
  case (SelectBook b)
  with assms show ?thesis by (simp add: showBookDetails_def pushState_def)
next
  case (OpenReader b)
  then show ?thesis by (simp add: openEpubReader_def pushState_def)
next
  case CloseDetail
  with assms show ?thesis
    by (simp add: closeBookDetail_def replaceStateNull_def Let_def)
next
  case CloseReader
  with assms show ?thesis
    by (simp add: closeEpubReader_def replaceStateNull_def Let_def)
next
  case Back
  show ?thesis
  proof (cases "past st")
    case Nil
    with Back assms(1) show ?thesis by (simp add: browserBack_def)
  next
    case (Cons e es)
    with Back assms(1)
      at_most_one_handlePopState
        [of "st\<lparr>past := es, current := e, future := current st # future st\<rparr>" "entry_state e"]
    show ?thesis by (simp add: browserBack_def)
  qed
next
  case Forward
  show ?thesis
  proof (cases "future st")
    case Nil
    with Forward assms(1) show ?thesis by (simp add: browserForward_def)
  next
    case (Cons e es)
    with Forward assms(1)
      at_most_one_handlePopState
        [of "st\<lparr>past := current st # past st, current := e, future := es\<rparr>" "entry_state e"]
    show ?thesis by (simp add: browserForward_def)
  qed
qed

lemma at_most_one_nav_run:
  "\<not> (showBookDetail st \<and> showEpubReader st) \<Longrightarrow> select_gated evs st \<Longrightarrow>
   \<not> (showBookDetail (nav_run evs st) \<and> showEpubReader (nav_run evs st))"
proof (induction evs arbitrary: st)
  case Nil
  then show ?case by simp
next
  case (Cons e es)
  from Cons.prems(2) have g: "\<And>b. e = SelectBook b \<Longrightarrow> \<not> showEpubReader st"
    by auto
  from Cons.prems(2) have r: "select_gated es (nav_step e st)"
    by (cases e) simp_all
  from Cons.prems(1) g have "\<not> (showBookDetail (nav_step e st) \<and> showEpubReader (nav_step e st))"
    by (rule at_most_one_nav_step)
  with r Cons.IH show ?case by simp
qed

text \<open>
  \<open>closeEpubReader\<close> does the same whatever it is given for \<open>skipHistoryBack\<close>.  So when
  the handler lands on a \<open>bookDetail\<close> entry of a catalog book while the reader is shown,
  it opens the detail view and then, through \<open>closeEpubReader\<close>, replaces the entry it has
  just landed on by one without state object.
\<close>

lemma closeEpubReader_ignores_skipHistoryBack:
  "closeEpubReader True st = closeEpubReader False st"
  by (simp add: closeEpubReader_def)

lemma handlePopState_detail_wipes_tag:
  assumes "find (\<lambda>b. name b = n) (books st) = Some b"
    and "showEpubReader st" and "entry_hash (current st) \<noteq> []"
  shows "showBookDetail (handlePopState (Some (BookDetail n)) st) \<and>
         \<not> showEpubReader (handlePopState (Some (BookDetail n)) st) \<and>
         selectedBook (handlePopState (Some (BookDetail n)) st) = Some b \<and>
         entry_state (current (handlePopState (Some (BookDetail n)) st)) = None"
  using assms
  by (simp add: handlePopState_def closeEpubReader_def replaceStateNull_def location_hash_def
        Let_def)

text \<open>
  Claim C2 (the code departs from it): select \<open>X\<close>, open the reader from the detail view,
  press the browser's back button.  Before the step the reader is open on its
  \<open>epubReader\<close> entry, with the \<open>bookDetail\<close> entry of \<open>X\<close> behind it.  After the step the
  detail view of \<open>X\<close> is open and the reader is closed, but the current entry, the restored
  \<open>bookDetail\<close> entry, has lost its state object and its fragment: the open modal does not
  correspond to the tag of the current history entry.
\<close>

theorem nav_back_from_reader_loses_tag:
  "showBookDetail (nav_run [SelectBook bookX, OpenReader bookX, Back] catalogXY) \<and>
   \<not> showEpubReader (nav_run [SelectBook bookX, OpenReader bookX, Back] catalogXY) \<and>
   selectedBook (nav_run [SelectBook bookX, OpenReader bookX, Back] catalogXY) = Some bookX \<and>
   entry_state (current (nav_run [SelectBook bookX, OpenReader bookX, Back] catalogXY)) = None \<and>
   entry_hash (current (nav_run [SelectBook bookX, OpenReader bookX, Back] catalogXY)) = [] \<and>
   \<not> corresponds (nav_run [SelectBook bookX, OpenReader bookX, Back] catalogXY) \<and>
   entry_state (current (nav_run [SelectBook bookX, OpenReader bookX] catalogXY)) =
     Some (EpubReader ''X'') \<and>
   map entry_state (past (nav_run [SelectBook bookX, OpenReader bookX] catalogXY)) =
     [Some (BookDetail ''X''), None]"
  by code_simp

text \<open>
  The neighbouring path keeps the tag: when the reader has been closed before the back
  step, the handler opens the detail view over the \<open>bookDetail\<close> entry and leaves the entry
  alone.
\<close>

lemma nav_back_with_reader_closed_keeps_tag:
  "showBookDetail (nav_run [SelectBook bookX, OpenReader bookX, CloseReader, Back] catalogXY) \<and>
   entry_state (current
     (nav_run [SelectBook bookX, OpenReader bookX, CloseReader, Back] catalogXY)) =
     Some (BookDetail ''X'') \<and>
   corresponds (nav_run [SelectBook bookX, OpenReader bookX, CloseReader, Back] catalogXY)"
  by code_simp

text \<open>
  Away from that step the history and the modals stay in line.  From the closed state,
  after any sequence of the six operations in which no book is selected while the reader
  is shown, at most one of \<open>showBookDetail\<close> and \<open>showEpubReader\<close> is true; and after any
  sequence in which, moreover, books are selected and readers opened for catalog books and
  while the reader is not shown, the detail view is not closed while the reader is shown
  nor the reader while the detail view is shown, and no back or forward step lands on a
  \<open>bookDetail\<close> entry while the reader is shown, the open modal corresponds to the state
  object of the current history entry.
\<close>

theorem nav_run_modal_matches_history:
  assumes "closed_start st"
  shows "(select_gated evs st \<longrightarrow>
            \<not> (showBookDetail (nav_run evs st) \<and> showEpubReader (nav_run evs st))) \<and>
         (offered_run evs st \<longrightarrow> corresponds (nav_run evs st))"
proof (intro conjI impI)
  assume "select_gated evs st"
  with assms show "\<not> (showBookDetail (nav_run evs st) \<and> showEpubReader (nav_run evs st))"
    by (intro at_most_one_nav_run) (simp_all add: closed_start_def)
next
  assume "offered_run evs st"
  with assms have "nav_inv (nav_run evs st)"
    by (auto intro: inv_nav_run closed_start_inv)
  then show "corresponds (nav_run evs st)"
    by (simp add: nav_inv_def)
qed

text \<open>
  A sequence of clicks and browser steps: select \<open>X\<close>, read it, close the reader, go back
  twice and forward once.  The detail view of \<open>X\<close> is the one modal open, over the
  \<open>bookDetail\<close> entry of \<open>X\<close>.
\<close>

theorem nav_run_modal_matches_history_witness:
  "\<not> (showBookDetail
        (nav_run [SelectBook bookX, OpenReader bookX, CloseReader, Back, Back, Forward] catalogXY) \<and>
      showEpubReader
        (nav_run [SelectBook bookX, OpenReader bookX, CloseReader, Back, Back, Forward] catalogXY)) \<and>
   corresponds
     (nav_run [SelectBook bookX, OpenReader bookX, CloseReader, Back, Back, Forward] catalogXY) \<and>
   entry_state (current
     (nav_run [SelectBook bookX, OpenReader bookX, CloseReader, Back, Back, Forward] catalogXY)) =
     Some (BookDetail ''X'')"
proof -
  let ?evs = "[SelectBook bookX, OpenReader bookX, CloseReader, Back, Back, Forward]"
  have c: "closed_start catalogXY"
    by (simp add: closed_start_def catalogXY_def initial_def)
  have g: "select_gated ?evs catalogXY" by code_simp
  have o: "offered_run ?evs catalogXY" by code_simp
  have e: "entry_state (current (nav_run ?evs catalogXY)) = Some (BookDetail ''X'')"
    by code_simp
  from nav_run_modal_matches_history [OF c, of ?evs] g o e show ?thesis by blast
qed

text \<open>
  What the handler does to the history.  On an entry without state object or with a
  \<open>bookDetail\<close> object it adds no entry (it may replace the current one).  On an
  \<open>epubReader\<close> entry of a catalog book, with the reader closed, it goes through
  \<open>openEpubReader\<close> and so pushes a new entry and drops the entries ahead.
\<close>

lemma handlePopState_no_push:
  "t = None \<or> t = Some (BookDetail n) \<Longrightarrow>
   past (handlePopState t st) = past st \<and> future (handlePopState t st) = future st"
  by (auto simp: handlePopState_def closeEpubReader_def replaceStateNull_def Let_def
      split: option.splits)

lemma handlePopState_reader_pushes:
  "find (\<lambda>b. name b = n) (books st) = Some b \<Longrightarrow> \<not> showEpubReader st \<Longrightarrow>
   past (handlePopState (Some (EpubReader n)) st) = current st # past st \<and>
   future (handlePopState (Some (EpubReader n)) st) = []"
  by (simp add: handlePopState_def openEpubReader_def pushState_def)

text \<open>
  Claim C3 (the code departs from it): select \<open>X\<close>, open the reader, go back, go
  forward.  Before the forward step the history has three entries, one of them ahead;
  the step lands on the \<open>epubReader\<close> entry, the handler calls \<open>openEpubReader\<close>, and
  the history has four entries, the new one pushed on top of the restored one.
\<close>

theorem handlePopState_pushes_entry:
  "length (past (nav_run [SelectBook bookX, OpenReader bookX, Back] catalogXY)) = 1 \<and>
   length (future (nav_run [SelectBook bookX, OpenReader bookX, Back] catalogXY)) = 1 \<and>
   length (past (nav_run [SelectBook bookX, OpenReader bookX, Back, Forward] catalogXY)) = 3 \<and>
   future (nav_run [SelectBook bookX, OpenReader bookX, Back, Forward] catalogXY) = [] \<and>
   entry_state (current (nav_run [SelectBook bookX, OpenReader bookX, Back, Forward] catalogXY)) =
     Some (EpubReader ''X'') \<and>
   map entry_state (past (nav_run [SelectBook bookX, OpenReader bookX, Back, Forward] catalogXY)) =
     [Some (EpubReader ''X''), None, None]"
  by code_simp

subsection \<open>Further properties of the same functions\<close>

text \<open>
  The catalog load issues one request for \<open>base/summary.json\<close> and clears the loading
  flag whatever comes back; a failed request or a body without book array sets the error
  message and leaves the catalog as it was; a delivered array leaves the error as it was
  and puts a subsequence of the array into the catalog.
\<close>

theorem onMounted_single_load:
  "requests (onMounted baseUrl res st) = requests st @ [baseUrl @ ''/summary.json''] \<and>
   \<not> loading (onMounted baseUrl res st) \<and>
   error (onMounted baseUrl AxiosError st) = Some ''Failed to load books.'' \<and>
   books (onMounted baseUrl AxiosError st) = books st \<and>
   error (onMounted baseUrl (AxiosData None) st) = Some ''Failed to load books.'' \<and>
   books (onMounted baseUrl (AxiosData None) st) = books st \<and>
   error (onMounted baseUrl (AxiosData (Some bs)) st) = error st \<and>
   subseq (books (onMounted baseUrl (AxiosData (Some bs)) st)) bs"
  using onMounted_one_request [of baseUrl res st]
    onMounted_failure [of AxiosError baseUrl st]
    onMounted_failure [of "AxiosData None" baseUrl st]
    onMounted_success [of baseUrl bs st]
  by simp

text \<open>
  The scenario of the specification: selecting author \<open>A\<close> yields exactly \<open>X\<close>; the
  query \<open>y\<close> yields exactly \<open>Y\<close>; making \<open>X\<close> a favourite and showing favourites only
  yields exactly \<open>X\<close>.
\<close>

theorem filteredBooks_scenario:
  "filteredBooks (catalogXY\<lparr>selectedAuthor := ''A''\<rparr>) = [bookX] \<and>
   filteredBooks (catalogXY\<lparr>searchQuery := ''y''\<rparr>) = [bookY] \<and>
   filteredBooks ((toggleFavorite bookX catalogXY)\<lparr>showFavoritesOnly := True\<rparr>) = [bookX]"
  by code_simp

text \<open>
  The second scenario: opening the detail view of \<open>X\<close> pushes one history entry, tagged
  for \<open>X\<close>; the browser's back button then restores the closed state.
\<close>

theorem detail_then_back_scenario:
  "showBookDetail (nav_run [SelectBook bookX] catalogXY) \<and>
   past (nav_run [SelectBook bookX] catalogXY) = [current catalogXY] \<and>
   entry_state (current (nav_run [SelectBook bookX] catalogXY)) = Some (BookDetail ''X'') \<and>
   entry_hash (current (nav_run [SelectBook bookX] catalogXY)) = ''#book-X'' \<and>
   \<not> showBookDetail (nav_run [SelectBook bookX, Back] catalogXY) \<and>
   \<not> showEpubReader (nav_run [SelectBook bookX, Back] catalogXY) \<and>
   selectedBook (nav_run [SelectBook bookX, Back] catalogXY) = None \<and>
   entry_state (current (nav_run [SelectBook bookX, Back] catalogXY)) = None"
  by code_simp

text \<open>
  A toggle removes the key of a favourite book (its first occurrence) and appends the key
  of any other book.
\<close>

theorem toggleFavorite_inserts_or_removes:
  "favorites (toggleFavorite b st) =
     (if isFavorite st b then remove1 (getFavoriteKey b) (favorites st)
      else favorites st @ [getFavoriteKey b])"
  by (simp add: favorites_toggleFavorite isFavorite_def)

text \<open>
  Selecting a book and opening the reader each push exactly one entry, tagged for the
  book, and drop the entries ahead; closing either modal adds and removes no entry and
  leaves the current one without fragment.
\<close>

theorem history_push_and_replace:
  "past (showBookDetails b st) = current st # past st \<and>
   future (showBookDetails b st) = [] \<and>
   entry_state (current (showBookDetails b st)) = Some (BookDetail (name b)) \<and>
   past (openEpubReader b st) = current st # past st \<and>
   future (openEpubReader b st) = [] \<and>
   entry_state (current (openEpubReader b st)) = Some (EpubReader (name b)) \<and>
   past (closeBookDetail st) = past st \<and> future (closeBookDetail st) = future st \<and>
   entry_hash (current (closeBookDetail st)) = [] \<and>
   past (closeEpubReader skip st) = past st \<and> future (closeEpubReader skip st) = future st \<and>
   entry_hash (current (closeEpubReader skip st)) = []"
  by (simp add: showBookDetails_def openEpubReader_def closeBookDetail_def closeEpubReader_def
        pushState_def replaceStateNull_def location_hash_def Let_def)

end
